theory Spec2Isabelle
  imports Main
begin

section \<open>Values, handle objects and the object store\<close>

text \<open>
  Scalars that cross the channel unchanged. A slice is the only scalar that Python
  cannot hash.
\<close>

datatype atom =
    PyNone
  | PyBool bool
  | PyInt int
  | PyStr string
  | PySlice "int option" "int option" "int option"

text \<open>
  The value shapes of the subprocess protocol: scalars, tuples, lists, the
  \<open>SignatureParam\<close> named tuple (its fields in order), \<open>AccessPath\<close> (its
  \<open>accesses\<close> attribute) and handles. The parameter \<open>'h\<close> is what stands for a
  handle: the address of an \<open>AccessHandle\<close> object in a process's object store
  (\<open>pyval\<close>), or the bare id that pickling keeps of it (\<open>wire\<close>).
\<close>

datatype 'h val =
    Atom atom
  | PyTuple "'h val list"
  | PyList "'h val list"
  | SignatureParam "'h val list"
  | AccessPath "'h val"
  | Handle 'h

type_synonym pyval = "nat val"

type_synonym wire = "int val"

type_synonym kwargs = "(string \<times> pyval) list"

text \<open>
  An \<open>AccessHandle\<close> object. \<open>access\<close> and \<open>subprocess\<close> (the attribute
  \<open>_subprocess\<close>) are references; \<open>None\<close> is an attribute that is not set.
  \<open>hid\<close> is the attribute \<open>id\<close>. \<open>memoize_method_dct\<close> is the per-object
  cache that \<open>memoize_method\<close> keeps for \<open>_cached_results\<close>, keyed by the
  positional arguments (the operation name first) and the set of keyword items.
\<close>

type_synonym memo_key = "pyval list \<times> (string \<times> pyval) set"

record AccessHandle =
  access :: "nat option"
  subprocess :: "nat option"
  hid :: int
  memoize_method_dct :: "memo_key \<rightharpoonup> pyval"

text \<open>The object store of one process: handle objects by address, and the next free address.\<close>

record heap =
  objs :: "nat \<Rightarrow> AccessHandle"
  next_ref :: nat

subsection \<open>AccessHandle: construction and pickling state\<close>

definition AccessHandle_init :: "nat \<Rightarrow> nat \<Rightarrow> int \<Rightarrow> AccessHandle" where
  "AccessHandle_init subprocess_ref access_ref id_arg =
     \<lparr>access = Some access_ref, subprocess = Some subprocess_ref, hid = id_arg,
      memoize_method_dct = Map.empty\<rparr>"


definition getstate :: "AccessHandle \<Rightarrow> int" where
  "getstate self = hid self"

definition setstate :: "AccessHandle \<Rightarrow> int \<Rightarrow> AccessHandle" where
  "setstate self state = self\<lparr>hid := state\<rparr>"

text \<open>
  What unpickling starts from: an object made without running \<open>__init__\<close>, so no
  attribute is set (the \<open>hid\<close> of the blank object is a placeholder that
  \<open>setstate\<close> overwrites before anything reads it).
\<close>

definition blank_AccessHandle :: AccessHandle where
  "blank_AccessHandle =
     \<lparr>access = None, subprocess = None, hid = 0, memoize_method_dct = Map.empty\<rparr>"

subsection \<open>The codec on values\<close>

text \<open>
  Modelled from the spec: \<open>pickle_dump\<close> and \<open>pickle_load\<close> of
  \<open>jedi._compatibility\<close> are not under src/. Section 4.1 of the spec has the codec
  carry scalars, sequences and the structural containers as they are and a handle
  "by id only"; an object with \<open>__getstate__\<close>/\<open>__setstate__\<close> is written as
  its state and rebuilt as a new object from that state.
\<close>

definition encode :: "heap \<Rightarrow> pyval \<Rightarrow> wire" where
  "encode h v = map_val (\<lambda>a. getstate (objs h a)) v"

fun decode :: "wire \<Rightarrow> heap \<Rightarrow> pyval \<times> heap"
  and decode_list :: "wire list \<Rightarrow> heap \<Rightarrow> pyval list \<times> heap" where
  "decode (Atom a) h = (Atom a, h)"
| "decode (PyTuple ws) h = (case decode_list ws h of (vs, h') \<Rightarrow> (PyTuple vs, h'))"
| "decode (PyList ws) h = (case decode_list ws h of (vs, h') \<Rightarrow> (PyList vs, h'))"
| "decode (SignatureParam ws) h =
     (case decode_list ws h of (vs, h') \<Rightarrow> (SignatureParam vs, h'))"
| "decode (AccessPath w) h = (case decode w h of (v, h') \<Rightarrow> (AccessPath v, h'))"
| "decode (Handle state) h =
     (Handle (next_ref h),
      h\<lparr>objs := (objs h)(next_ref h := setstate blank_AccessHandle state),
        next_ref := Suc (next_ref h)\<rparr>)"
| "decode_list [] h = ([], h)"
| "decode_list (w # ws) h =
     (case decode w h of (v, h1) \<Rightarrow>
        (case decode_list ws h1 of (vs, h2) \<Rightarrow> (v # vs, h2)))"

section \<open>The handle registry and the host-side dispatcher\<close>

text \<open>
  \<open>_InferenceStateProcess\<close>, the base of \<open>InferenceStateSubprocess\<close> (host) and
  \<open>InferenceStateSameProcess\<close> (worker): \<open>handles\<close> is the dictionary
  \<open>_handles\<close> from handle id to handle object, \<open>self_ref\<close> the object's own
  address (what \<open>add_subprocess(self)\<close> stores), \<open>infer_state_id\<close> the
  attribute \<open>_infer_state_id\<close>.
\<close>

record InferenceStateProcess =
  handles :: "int \<rightharpoonup> nat"
  self_ref :: nat
  infer_state_id :: int

datatype exc_class = KeyError | TypeError | IOError | InternalError | OtherError string

record exc =
  exc_type :: exc_class
  exc_args :: "atom list"

definition get_access_handle :: "InferenceStateProcess \<Rightarrow> int \<Rightarrow> exc + nat" where
  "get_access_handle self id_arg =
     (case handles self id_arg of
        None \<Rightarrow> Inl \<lparr>exc_type = KeyError, exc_args = [PyInt id_arg]\<rparr>
      | Some handle \<Rightarrow> Inr handle)"



section \<open>The worker: listener, sessions and dispatch\<close>

text \<open>
  Modelled from the spec: the class \<open>InferenceState\<close> (\<open>jedi.inference\<close>) is not
  under src/. The listener reads one attribute of a session object,
  \<open>compiled_subprocess\<close>, the session's own handle registry (section 4.5).
\<close>

record InferenceState =
  compiled_subprocess :: InferenceStateProcess

text \<open>
  The worker's object memory that a catalog function can reach through the session it is
  given: the handle objects and the session objects, by address.
\<close>

record memory =
  handle_objs :: heap
  infer_state_objs :: "nat \<Rightarrow> InferenceState"

datatype outcome = Return pyval | Raise exc

text \<open>
  A function of the catalog \<open>functions\<close> (not under src/, and opaque to the
  protocol): it is called with the session (\<open>None\<close> for a context-free call), the
  positional and the keyword arguments, it may change the memory, and it returns or raises.
  The environment of a run gives the catalog by name, the text that
  \<open>traceback.format_exc()\<close> renders for an exception, and the \<open>errno\<close> with which
  the operating system fails a write to a dead worker's pipe (\<open>None\<close>: the write is
  absorbed by the pipe buffer).
\<close>

type_synonym func = "nat option \<Rightarrow> pyval list \<Rightarrow> kwargs \<Rightarrow> memory \<Rightarrow> outcome \<times> memory"

record env =
  get_function :: "string \<Rightarrow> func"
  format_exc :: "exc \<Rightarrow> string"
  os_write_errno :: "int option"

text \<open>
  A request as \<open>_send\<close> builds it, \<open>(infer_state_id, function, args, kwargs)\<close>,
  before pickling and on the wire, and the two shapes of the response tuple that the
  listener writes: \<open>(False, None, result)\<close> and \<open>(True, traceback, exception)\<close>.
\<close>

type_synonym request = "int option \<times> string option \<times> pyval list \<times> kwargs"

type_synonym wire_request = "int option \<times> string option \<times> wire list \<times> (string \<times> wire) list"

datatype response = Result wire | Failure string exc

text \<open>
  The listener: \<open>infer_states\<close> is the dictionary \<open>_infer_states\<close> from context
  id to session object, \<open>created\<close> counts the session objects constructed so far (the
  next one gets this address).
\<close>

record Listener =
  infer_states :: "int \<rightharpoonup> nat"
  created :: nat
  memory :: memory

definition Listener_init :: Listener where
  "Listener_init =
     \<lparr>infer_states = Map.empty, created = 0,
      memory = \<lparr>handle_objs = \<lparr>objs = (\<lambda>a. blank_AccessHandle), next_ref = 0\<rparr>,
                infer_state_objs = (\<lambda>r. \<lparr>compiled_subprocess =
                   \<lparr>handles = Map.empty, self_ref = r, infer_state_id = int r\<rparr>\<rparr>)\<rparr>\<rparr>"

definition new_InferenceState :: "nat \<Rightarrow> InferenceState" where
  "new_InferenceState r =
     \<lparr>compiled_subprocess = \<lparr>handles = Map.empty, self_ref = r, infer_state_id = int r\<rparr>\<rparr>"

definition get_infer_state :: "Listener \<Rightarrow> string \<Rightarrow> int \<Rightarrow> nat \<times> Listener" where
  "get_infer_state self function infer_state_id_arg =
     (case infer_states self infer_state_id_arg of
        Some infer_state \<Rightarrow> (infer_state, self)
      | None \<Rightarrow>
          (let infer_state = created self
           in (infer_state,
               self\<lparr>infer_states := (infer_states self)(infer_state_id_arg \<mapsto> infer_state),
                    created := Suc (created self),
                    memory := (memory self)\<lparr>infer_state_objs :=
                       (infer_state_objs (memory self))(infer_state := new_InferenceState infer_state)\<rparr>\<rparr>)))"

text \<open>
  The two loops of \<open>_run\<close> that exchange handles: an argument that is an
  \<open>AccessHandle\<close> is replaced by \<open>get_access_handle(arg.id)\<close> of the session's
  registry, whose \<open>KeyError\<close> ends the loop; any other argument stays.
\<close>

fun exchange_args :: "InferenceStateProcess \<Rightarrow> heap \<Rightarrow> pyval list \<Rightarrow> exc + pyval list" where
  "exchange_args reg h [] = Inr []"
| "exchange_args reg h (Handle a # rest) =
     (case get_access_handle reg (hid (objs h a)) of
        Inl key_error \<Rightarrow> Inl key_error
      | Inr live \<Rightarrow>
          (case exchange_args reg h rest of
             Inl key_error \<Rightarrow> Inl key_error
           | Inr rest' \<Rightarrow> Inr (Handle live # rest')))"
| "exchange_args reg h (arg # rest) =
     (case exchange_args reg h rest of
        Inl key_error \<Rightarrow> Inl key_error
      | Inr rest' \<Rightarrow> Inr (arg # rest'))"

fun exchange_kwargs :: "InferenceStateProcess \<Rightarrow> heap \<Rightarrow> kwargs \<Rightarrow> exc + kwargs" where
  "exchange_kwargs reg h [] = Inr []"
| "exchange_kwargs reg h ((key, Handle a) # rest) =
     (case get_access_handle reg (hid (objs h a)) of
        Inl key_error \<Rightarrow> Inl key_error
      | Inr live \<Rightarrow>
          (case exchange_kwargs reg h rest of
             Inl key_error \<Rightarrow> Inl key_error
           | Inr rest' \<Rightarrow> Inr ((key, Handle live) # rest')))"
| "exchange_kwargs reg h ((key, value) # rest) =
     (case exchange_kwargs reg h rest of
        Inl key_error \<Rightarrow> Inl key_error
      | Inr rest' \<Rightarrow> Inr ((key, value) # rest'))"

text \<open>
  \<open>Listener._run\<close>. Calling \<open>None\<close> (no context id, no function) is Python's
  \<open>TypeError\<close>; \<open>del self._infer_states[infer_state_id]\<close> of an absent key is
  its \<open>KeyError\<close>; the deletion branch returns \<open>None\<close>.
\<close>

definition run_listener :: "env \<Rightarrow> Listener \<Rightarrow> request \<Rightarrow> outcome \<times> Listener" where
  "run_listener e self payload =
     (case payload of (infer_state_id_arg, function, args, kwargs) \<Rightarrow>
        (case infer_state_id_arg of
           None \<Rightarrow>
             (case function of
                None \<Rightarrow> (Raise \<lparr>exc_type = TypeError, exc_args = []\<rparr>, self)
              | Some f \<Rightarrow>
                  (case get_function e f None args kwargs (memory self) of
                     (out, mem') \<Rightarrow> (out, self\<lparr>memory := mem'\<rparr>)))
         | Some i \<Rightarrow>
             (case function of
                None \<Rightarrow>
                  (case infer_states self i of
                     None \<Rightarrow> (Raise \<lparr>exc_type = KeyError, exc_args = [PyInt i]\<rparr>, self)
                   | Some infer_state \<Rightarrow>
                       (Return (Atom PyNone), self\<lparr>infer_states := (infer_states self)(i := None)\<rparr>))
              | Some f \<Rightarrow>
                  (case get_infer_state self f i of
                     (infer_state, self1) \<Rightarrow>
                       (let reg = compiled_subprocess (infer_state_objs (memory self1) infer_state);
                            h = handle_objs (memory self1)
                        in case exchange_args reg h args of
                             Inl key_error \<Rightarrow> (Raise key_error, self1)
                           | Inr args' \<Rightarrow>
                               (case exchange_kwargs reg h kwargs of
                                  Inl key_error \<Rightarrow> (Raise key_error, self1)
                                | Inr kwargs' \<Rightarrow>
                                    (case get_function e f (Some infer_state) args' kwargs' (memory self1) of
                                       (out, mem') \<Rightarrow> (out, self1\<lparr>memory := mem'\<rparr>))))))))"

subsection \<open>Requests and responses on the wire\<close>

fun decode_kwargs :: "(string \<times> wire) list \<Rightarrow> heap \<Rightarrow> kwargs \<times> heap" where
  "decode_kwargs [] h = ([], h)"
| "decode_kwargs ((key, w) # rest) h =
     (case decode w h of (v, h1) \<Rightarrow>
        (case decode_kwargs rest h1 of (rest', h2) \<Rightarrow> ((key, v) # rest', h2)))"

definition dump_request :: "heap \<Rightarrow> request \<Rightarrow> wire_request" where
  "dump_request h data =
     (case data of (infer_state_id_arg, function, args, kwargs) \<Rightarrow>
        (infer_state_id_arg, function, map (encode h) args,
         map (\<lambda>(key, value). (key, encode h value)) kwargs))"

definition load_request :: "wire_request \<Rightarrow> heap \<Rightarrow> request \<times> heap" where
  "load_request data h =
     (case data of (infer_state_id_arg, function, ws, kws) \<Rightarrow>
        (case decode_list ws h of (args, h1) \<Rightarrow>
           (case decode_kwargs kws h1 of (kwargs, h2) \<Rightarrow>
              ((infer_state_id_arg, function, args, kwargs), h2))))"

subsection \<open>The listener loop\<close>

text \<open>
  One turn of the loop of \<open>listen\<close> after a request has been read: unpickle it into
  the worker's memory, run it, and build the response tuple. Every exception value of the
  model is an instance of Python's \<open>Exception\<close>, the class that the loop's
  \<open>except\<close> clause names.
\<close>

definition listen_once :: "env \<Rightarrow> Listener \<Rightarrow> wire_request \<Rightarrow> response \<times> Listener" where
  "listen_once e self data =
     (case load_request data (handle_objs (memory self)) of
        (payload, h1) \<Rightarrow>
          (case run_listener e (self\<lparr>memory := (memory self)\<lparr>handle_objs := h1\<rparr>\<rparr>) payload of
             (Return v, self') \<Rightarrow> (Result (encode (handle_objs (memory self')) v), self')
           | (Raise ex, self') \<Rightarrow> (Failure (format_exc e ex) ex, self')))"

text \<open>
  How the worker process ends: \<open>exit(code)\<close>, or an exception that nothing catches.
\<close>

datatype exit_status = Exit int | Uncaught exc

definition EPIPE :: int where "EPIPE = 32"

definition EINVAL :: int where "EINVAL = 22"

text \<open>
  \<open>Listener.listen\<close>, run on what the worker's standard input still holds (the
  requests, then end-of-stream) and on the number of writes its standard output still
  takes (\<open>None\<close>: any number; at \<open>Some 0\<close> the host's end is closed and
  \<open>pickle_dump\<close> raises). The result is how the process ends, the responses written,
  and the listener's last state.
\<close>

fun listen :: "env \<Rightarrow> Listener \<Rightarrow> wire_request list \<Rightarrow> nat option
               \<Rightarrow> exit_status \<times> response list \<times> Listener" where
  "listen e self [] stdout = (Exit 0, [], self)"
| "listen e self (data # stdin) stdout =
     (case listen_once e self data of
        (result, self') \<Rightarrow>
          (if stdout = Some 0
           then (Uncaught \<lparr>exc_type = IOError, exc_args = [PyInt EPIPE]\<rparr>, [], self')
           else (case listen e self' stdin (map_option (\<lambda>n. n - 1) stdout) of
                   (status, written, self'') \<Rightarrow> (status, result # written, self''))))"

section \<open>The host: worker process, manager and call path\<close>

text \<open>
  The worker process as the manager's pipes see it: whether it is running, the listener
  inside it, everything written to its standard input so far, the responses it has written
  that the host has not read yet, and what its standard error holds.
\<close>

record process =
  alive :: bool
  listener :: Listener
  stdin_log :: "wire_request list"
  stdout_buf :: "response list"
  stderr :: string

text \<open>
  \<open>pickle_dump(data, process.stdin, protocol)\<close>: a running worker takes the request
  and, being a synchronous loop, has its response written before the host reads; a dead
  worker's pipe fails the write with the operating system's \<open>errno\<close>, or absorbs it.
  \<open>pickle_load(process.stdout)\<close>: the next response, or \<open>None\<close> for
  \<open>EOFError\<close>.
\<close>

definition pickle_dump :: "env \<Rightarrow> wire_request \<Rightarrow> process \<Rightarrow> int option \<times> process" where
  "pickle_dump e data p =
     (if alive p
      then (case listen_once e (listener p) data of
              (result, listener') \<Rightarrow>
                (None, p\<lparr>listener := listener', stdin_log := stdin_log p @ [data],
                          stdout_buf := stdout_buf p @ [result]\<rparr>))
      else (case os_write_errno e of
              Some errno \<Rightarrow> (Some errno, p)
            | None \<Rightarrow> (None, p\<lparr>stdin_log := stdin_log p @ [data]\<rparr>)))"

definition pickle_load :: "process \<Rightarrow> response option \<times> process" where
  "pickle_load p =
     (case stdout_buf p of
        [] \<Rightarrow> (None, p)
      | result # rest \<Rightarrow> (Some result, p\<lparr>stdout_buf := rest\<rparr>))"

text \<open>
  \<open>CompiledSubprocess\<close>. \<open>process\<close> is what the memoized \<open>_get_process\<close>
  holds: \<open>None\<close> until the first call starts the worker. The deletion queue is the
  deque left to right: \<open>append\<close> adds at the right end and \<open>pop\<close> takes from it.
\<close>

record CompiledSubprocess =
  is_crashed :: bool
  executable :: string
  infer_state_deletion_queue :: "int list"
  process :: "process option"

definition CompiledSubprocess_init :: "string \<Rightarrow> CompiledSubprocess" where
  "CompiledSubprocess_init executable_arg =
     \<lparr>is_crashed = False, executable = executable_arg, infer_state_deletion_queue = [],
      process = None\<rparr>"

definition GeneralizedPopen :: process where
  "GeneralizedPopen =
     \<lparr>alive = True, listener = Listener_init, stdin_log = [], stdout_buf = [], stderr = []\<rparr>"

definition get_process :: "CompiledSubprocess \<Rightarrow> process \<times> CompiledSubprocess" where
  "get_process self =
     (case process self of
        Some p \<Rightarrow> (p, self)
      | None \<Rightarrow> (GeneralizedPopen, self\<lparr>process := Some GeneralizedPopen\<rparr>))"

text \<open>\<open>_cleanup_process\<close> kills the worker; before the first start there is nothing to clean up.\<close>

definition cleanup_process :: "process \<Rightarrow> process" where
  "cleanup_process p = p\<lparr>alive := False\<rparr>"

definition kill :: "CompiledSubprocess \<Rightarrow> CompiledSubprocess" where
  "kill self = self\<lparr>is_crashed := True, process := map_option cleanup_process (process self)\<rparr>"

definition internal_error :: "string \<Rightarrow> exc" where
  "internal_error message = \<lparr>exc_type = InternalError, exc_args = [PyStr message]\<rparr>"

text \<open>
  \<open>CompiledSubprocess._send\<close> (on Python 3, where the keyword names need no
  conversion). The result is the value returned or the exception raised, the manager and
  the host's object store afterwards.
\<close>

definition send :: "env \<Rightarrow> CompiledSubprocess \<Rightarrow> heap \<Rightarrow> request
                    \<Rightarrow> (exc + pyval) \<times> CompiledSubprocess \<times> heap" where
  "send e self h data =
     (if is_crashed self
      then (Inl (internal_error (''The subprocess '' @ executable self @ '' has crashed.'')), self, h)
      else
        (case get_process self of
           (p, self1) \<Rightarrow>
             (case pickle_dump e (dump_request h data) p of
                (Some errno, p1) \<Rightarrow>
                  (if errno \<noteq> EPIPE \<and> errno \<noteq> EINVAL
                   then (Inl \<lparr>exc_type = IOError, exc_args = [PyInt errno]\<rparr>,
                         self1\<lparr>process := Some p1\<rparr>, h)
                   else (Inl (internal_error (''The subprocess '' @ executable self
                                 @ '' was killed. Maybe out of memory?'')),
                         kill (self1\<lparr>process := Some p1\<rparr>), h))
              | (None, p1) \<Rightarrow>
                  (case pickle_load p1 of
                     (None, p2) \<Rightarrow>
                       (Inl (internal_error (''The subprocess '' @ executable self
                               @ '' has crashed (EOFError(), stderr='' @ stderr p2 @ '').'')),
                        kill (self1\<lparr>process := Some p2\<rparr>), h)
                   | (Some (Failure traceback result), p2) \<Rightarrow>
                       (Inl (result\<lparr>exc_args := [PyStr traceback]\<rparr>),
                        self1\<lparr>process := Some p2\<rparr>, h)
                   | (Some (Result w), p2) \<Rightarrow>
                       (case decode w h of
                          (result, h') \<Rightarrow> (Inr result, self1\<lparr>process := Some p2\<rparr>, h'))))))"

definition delete_infer_state :: "CompiledSubprocess \<Rightarrow> int \<Rightarrow> CompiledSubprocess" where
  "delete_infer_state self infer_state_id_arg =
     self\<lparr>infer_state_deletion_queue := infer_state_deletion_queue self @ [infer_state_id_arg]\<rparr>"

definition get_sys_path :: "env \<Rightarrow> CompiledSubprocess \<Rightarrow> heap \<Rightarrow> (exc + pyval) \<times> CompiledSubprocess \<times> heap" where
  "get_sys_path e self h = send e self h (None, Some ''get_sys_path'', [], [])"

text \<open>
  The loop at the head of \<open>CompiledSubprocess.run\<close>: pop an id from the deletion queue
  and send its deletion request, until the queue is empty (\<open>IndexError\<close>: break). An
  exception of \<open>_send\<close> leaves the loop and \<open>run\<close> with it.
\<close>

function delete_old_infer_states ::
    "env \<Rightarrow> CompiledSubprocess \<Rightarrow> heap \<Rightarrow> exc option \<times> CompiledSubprocess \<times> heap" where
  "delete_old_infer_states e self h =
     (if infer_state_deletion_queue self = []
      then (None, self, h)
      else
        (let infer_state_id_arg = last (infer_state_deletion_queue self);
             self1 = self\<lparr>infer_state_deletion_queue := butlast (infer_state_deletion_queue self)\<rparr>
         in case send e self1 h (Some infer_state_id_arg, None, [], []) of
              (Inl ex, self2, h2) \<Rightarrow> (Some ex, self2, h2)
            | (Inr deleted, self2, h2) \<Rightarrow> delete_old_infer_states e self2 h2))"
  by pat_completeness auto

termination
  by (relation "measure (\<lambda>(e, self, h). length (infer_state_deletion_queue self))")
     (auto simp: send_def get_process_def kill_def
           split: if_splits prod.splits option.splits response.splits)

declare delete_old_infer_states.simps [simp del]

text \<open>
  \<open>CompiledSubprocess.run\<close>; \<open>infer_state_id_arg\<close> is \<open>id(infer_state)\<close>, and
  \<open>function\<close> names a function of the catalog (so the assertion that it is callable
  holds).
\<close>

definition run :: "env \<Rightarrow> CompiledSubprocess \<Rightarrow> heap \<Rightarrow> int \<Rightarrow> string \<Rightarrow> pyval list \<Rightarrow> kwargs
                   \<Rightarrow> (exc + pyval) \<times> CompiledSubprocess \<times> heap" where
  "run e self h infer_state_id_arg function args kwargs =
     (case delete_old_infer_states e self h of
        (Some ex, self', h') \<Rightarrow> (Inl ex, self', h')
      | (None, self', h') \<Rightarrow>
          send e self' h' (Some infer_state_id_arg, Some function, args, kwargs))"

section \<open>The handle proxy\<close>






section \<open>Predicates of the properties\<close>

text \<open>
  What decoding establishes: the store only grows, what was allocated before is
  untouched, the handles of the decoded value are new objects, each with nothing but its
  id, and the decoded value pickles back to the wire value it came from.
\<close>

definition only_id :: "AccessHandle \<Rightarrow> bool" where
  "only_id obj = (access obj = None \<and> subprocess obj = None \<and> memoize_method_dct obj = Map.empty)"

definition decode_post :: "heap \<Rightarrow> wire \<Rightarrow> heap \<Rightarrow> pyval \<Rightarrow> bool" where
  "decode_post h w h' v =
     (next_ref h \<le> next_ref h'
      \<and> (\<forall>a. a < next_ref h \<longrightarrow> objs h' a = objs h a)
      \<and> set_val v \<subseteq> {next_ref h ..< next_ref h'}
      \<and> encode h' v = w
      \<and> (\<forall>a. next_ref h \<le> a \<and> a < next_ref h' \<longrightarrow> only_id (objs h' a)))"






text \<open>
  The calls that a client can make on a manager, and a sequence of them run one after
  the other: the result of each call that goes to \<open>_send\<close> (none for queueing a
  deletion), and the manager and the object store at the end.
\<close>

datatype call =
    Call_send request
  | Call_run int string "pyval list" kwargs
  | Call_get_sys_path
  | Call_delete_infer_state int

fun do_call :: "env \<Rightarrow> call \<Rightarrow> CompiledSubprocess \<Rightarrow> heap
                \<Rightarrow> (exc + pyval) option \<times> CompiledSubprocess \<times> heap" where
  "do_call e (Call_send data) self h =
     (case send e self h data of (r, self', h') \<Rightarrow> (Some r, self', h'))"
| "do_call e (Call_run i f args kwargs) self h =
     (case run e self h i f args kwargs of (r, self', h') \<Rightarrow> (Some r, self', h'))"
| "do_call e Call_get_sys_path self h =
     (case get_sys_path e self h of (r, self', h') \<Rightarrow> (Some r, self', h'))"
| "do_call e (Call_delete_infer_state i) self h = (None, delete_infer_state self i, h)"

fun do_calls :: "env \<Rightarrow> call list \<Rightarrow> CompiledSubprocess \<Rightarrow> heap
                 \<Rightarrow> (exc + pyval) option list \<times> CompiledSubprocess \<times> heap" where
  "do_calls e [] self h = ([], self, h)"
| "do_calls e (c # cs) self h =
     (case do_call e c self h of
        (r, self', h') \<Rightarrow>
          (case do_calls e cs self' h' of (rs, self'', h'') \<Rightarrow> (r # rs, self'', h'')))"

definition crashed_error :: "CompiledSubprocess \<Rightarrow> exc + pyval" where
  "crashed_error self =
     Inl (internal_error (''The subprocess '' @ executable self @ '' has crashed.''))"

text \<open>What the broken channel is: the write fails with a broken pipe, or the read finds the stream ended.\<close>

definition broken_channel :: "env \<Rightarrow> process \<Rightarrow> wire_request \<Rightarrow> bool" where
  "broken_channel e p data =
     (case pickle_dump e data p of
        (Some errno, p1) \<Rightarrow> errno = EPIPE \<or> errno = EINVAL
      | (None, p1) \<Rightarrow> fst (pickle_load p1) = None)"

text \<open>
  What the exchange loops do to one argument: a handle becomes the handle registered
  under its id in the session's registry, anything else stays as it is.
\<close>

definition exchanged :: "InferenceStateProcess \<Rightarrow> heap \<Rightarrow> pyval \<Rightarrow> pyval \<Rightarrow> bool" where
  "exchanged reg h arg arg' =
     (case arg of
        Handle a \<Rightarrow>
          (case handles reg (hid (objs h a)) of
             Some live \<Rightarrow> arg' = Handle live
           | None \<Rightarrow> False)
      | _ \<Rightarrow> arg' = arg)"


section \<open>Inputs to run the theorems on\<close>

text \<open>A store with three handle objects, of the ids 7, 7 and 9.\<close>

definition witness_heap :: heap where
  "witness_heap =
     \<lparr>objs = (\<lambda>a. if a = 2 then AccessHandle_init 5 6 9 else AccessHandle_init 5 4 7),
      next_ref = 3\<rparr>"


text \<open>
  An environment and a manager to run the theorems on: a catalog whose functions return
  \<open>None\<close>, except \<open>boom\<close>, which raises \<open>ValueError\<close>; an operating system that
  fails a write to a dead worker with \<open>EPIPE\<close>; a manager whose worker was started
  and has died since.
\<close>

definition witness_env :: env where
  "witness_env =
     \<lparr>get_function = (\<lambda>name session args kwargs mem.
         if name = ''boom''
         then (Raise \<lparr>exc_type = OtherError ''ValueError'', exc_args = [PyStr ''boom'']\<rparr>, mem)
         else (Return (Atom PyNone), mem)),
      format_exc = (\<lambda>ex. ''Traceback (most recent call last): ...''),
      os_write_errno = Some EPIPE\<rparr>"

definition empty_heap :: heap where
  "empty_heap = \<lparr>objs = (\<lambda>a. blank_AccessHandle), next_ref = 0\<rparr>"

definition dead_worker_manager :: CompiledSubprocess where
  "dead_worker_manager =
     \<lparr>is_crashed = False, executable = ''python'', infer_state_deletion_queue = [],
      process = Some (GeneralizedPopen\<lparr>alive := False\<rparr>)\<rparr>"

text \<open>
  A listener to run the theorems on: one session, stored under context id 4, whose
  registry holds the handle object 0 under the handle id 7; every other handle object
  of the worker's memory is an unpickled handle of id 7.
\<close>

definition witness_listener :: Listener where
  "witness_listener =
     \<lparr>infer_states = [4 \<mapsto> 0], created = 1,
      memory =
        \<lparr>handle_objs =
           \<lparr>objs = (\<lambda>a. if a = 0 then AccessHandle_init 0 10 7
                          else setstate blank_AccessHandle 7),
            next_ref = 2\<rparr>,
         infer_state_objs = (\<lambda>r. \<lparr>compiled_subprocess =
            \<lparr>handles = [7 \<mapsto> 0], self_ref = r, infer_state_id = int r\<rparr>\<rparr>)\<rparr>\<rparr>"

text \<open>A manager whose worker has been started and holds no session yet.\<close>

definition live_worker_manager :: CompiledSubprocess where
  "live_worker_manager =
     \<lparr>is_crashed = False, executable = ''python'', infer_state_deletion_queue = [],
      process = Some GeneralizedPopen\<rparr>"



section \<open>Properties of the codec\<close>

lemma decode_post_atom: "decode_post h (Atom a) h (Atom a)"
  by (auto simp: decode_post_def encode_def)

lemma decode_post_nil: "decode_post h (PyTuple []) h (PyTuple [])"
  by (auto simp: decode_post_def encode_def)

lemma decode_post_handle:
  "decode_post h (Handle state)
     (h\<lparr>objs := (objs h)(next_ref h := setstate blank_AccessHandle state),
       next_ref := Suc (next_ref h)\<rparr>)
     (Handle (next_ref h))"
  by (auto simp: decode_post_def encode_def getstate_def setstate_def blank_AccessHandle_def
        only_id_def)

lemma decode_post_list:
  "decode_post h (PyTuple ws) h' (PyTuple vs) \<Longrightarrow> decode_post h (PyList ws) h' (PyList vs)"
  by (simp add: decode_post_def encode_def)

lemma decode_post_sig:
  "decode_post h (PyTuple ws) h' (PyTuple vs)
   \<Longrightarrow> decode_post h (SignatureParam ws) h' (SignatureParam vs)"
  by (simp add: decode_post_def encode_def)

lemma decode_post_path:
  "decode_post h w h' v \<Longrightarrow> decode_post h (AccessPath w) h' (AccessPath v)"
  by (simp add: decode_post_def encode_def)

lemma encode_cong_heap:
  assumes "\<And>a. a \<in> set_val v \<Longrightarrow> objs h' a = objs h a"
  shows "encode h' v = encode h v"
  unfolding encode_def using assms by (intro val.map_cong) auto

lemma decode_post_cons:
  assumes A: "decode_post h w h1 v" and B: "decode_post h1 (PyTuple ws) h' (PyTuple vs)"
  shows "decode_post h (PyTuple (w # ws)) h' (PyTuple (v # vs))"
proof -
  have n: "next_ref h \<le> next_ref h1" "next_ref h1 \<le> next_ref h'"
    using A B by (simp_all add: decode_post_def)
  have old1: "\<And>a. a < next_ref h \<Longrightarrow> objs h1 a = objs h a"
    using A by (simp add: decode_post_def)
  have old2: "\<And>a. a < next_ref h1 \<Longrightarrow> objs h' a = objs h1 a"
    using B by (simp add: decode_post_def)
  have old: "\<forall>a. a < next_ref h \<longrightarrow> objs h' a = objs h a"
    using old1 old2 n by auto
  have sv: "set_val v \<subseteq> {next_ref h ..< next_ref h1}"
    using A by (simp add: decode_post_def)
  have svs: "set_val (PyTuple vs) \<subseteq> {next_ref h1 ..< next_ref h'}"
    using B by (simp add: decode_post_def)
  have refs: "set_val (PyTuple (v # vs)) \<subseteq> {next_ref h ..< next_ref h'}"
    using sv svs n by auto
  have "encode h' v = encode h1 v"
    using sv old2 by (intro encode_cong_heap) auto
  moreover have "encode h1 v = w" using A by (simp add: decode_post_def)
  moreover have "encode h' (PyTuple vs) = PyTuple ws" using B by (simp add: decode_post_def)
  ultimately have enc: "encode h' (PyTuple (v # vs)) = PyTuple (w # ws)"
    by (simp add: encode_def)
  have fresh: "\<forall>a. next_ref h \<le> a \<and> a < next_ref h' \<longrightarrow> only_id (objs h' a)"
  proof (intro allI impI)
    fix a assume a: "next_ref h \<le> a \<and> a < next_ref h'"
    show "only_id (objs h' a)"
    proof (cases "a < next_ref h1")
      case True
      then have "objs h' a = objs h1 a" by (rule old2)
      moreover have "only_id (objs h1 a)" using A a True by (simp add: decode_post_def)
      ultimately show ?thesis by simp
    next
      case False
      then show ?thesis using B a by (simp add: decode_post_def)
    qed
  qed
  show ?thesis
    unfolding decode_post_def using n old refs enc fresh by auto
qed

lemma decode_establishes_post:
  "decode w h = (v, h') \<Longrightarrow> decode_post h w h' v"
  "decode_list ws h = (vs, h') \<Longrightarrow> decode_post h (PyTuple ws) h' (PyTuple vs)"
proof (induction w h and ws h arbitrary: v h' and vs h' rule: decode_decode_list.induct)
  case (1 a h)
  then show ?case by (auto simp: decode_post_atom)
next
  case (2 ws h)
  then obtain vs where "decode_list ws h = (vs, h')" "v = PyTuple vs"
    by (auto split: prod.splits)
  with 2 show ?case by simp
next
  case (3 ws h)
  then obtain vs where "decode_list ws h = (vs, h')" "v = PyList vs"
    by (auto split: prod.splits)
  with 3 show ?case by (simp add: decode_post_list)
next
  case (4 ws h)
  then obtain vs where "decode_list ws h = (vs, h')" "v = SignatureParam vs"
    by (auto split: prod.splits)
  with 4 show ?case by (simp add: decode_post_sig)
next
  case (5 w h)
  then obtain u where "decode w h = (u, h')" "v = AccessPath u"
    by (auto split: prod.splits)
  with 5 show ?case by (simp add: decode_post_path)
next
  case (6 state h)
  then show ?case by (auto simp: decode_post_handle)
next
  case (7 h)
  then show ?case by (auto simp: decode_post_nil)
next
  case (8 w ws h)
  from "8.prems" obtain v1 h1 vs1 where
    d1: "decode w h = (v1, h1)" and d2: "decode_list ws h1 = (vs1, h')" and vs: "vs = v1 # vs1"
    by (auto split: prod.splits)
  note A = "8.IH"(1)[OF d1]
  note B = "8.IH"(2)[OF d1[symmetric] d2]
  show ?case unfolding vs using A B by (rule decode_post_cons)
qed

text \<open>
  C9. The state that pickling keeps of a handle is exactly its id; unpickling that state
  gives an object with the same id and no other attribute set; so a value that is
  encoded and decoded again comes back with the same structure and the same handle ids
  (it encodes to the same wire value), its handles being objects that carry only their id.
\<close>

theorem handle_state_is_its_id:
  assumes "decode (encode h v) h2 = (v', h2')"
  shows "getstate self = hid self
         \<and> setstate blank_AccessHandle (getstate self)
             = \<lparr>access = None, subprocess = None, hid = hid self, memoize_method_dct = Map.empty\<rparr>
         \<and> encode h2' v' = encode h v
         \<and> (\<forall>a \<in> set_val v'. only_id (objs h2' a))"
proof -
  have post: "decode_post h2 (encode h v) h2' v'"
    using assms by (rule decode_establishes_post(1))
  have "\<forall>a \<in> set_val v'. only_id (objs h2' a)"
    using post unfolding decode_post_def by auto
  moreover have "encode h2' v' = encode h v"
    using post by (simp add: decode_post_def)
  ultimately show ?thesis
    by (simp add: getstate_def setstate_def blank_AccessHandle_def)
qed

theorem handle_state_is_its_id_witness:
  "fst (decode (encode witness_heap (PyTuple [Handle 0, PyList [Handle 2], Atom (PyInt 1)]))
          witness_heap)
     = PyTuple [Handle 3, PyList [Handle 4], Atom (PyInt 1)]
   \<and> encode witness_heap (PyTuple [Handle 0, PyList [Handle 2], Atom (PyInt 1)])
     = PyTuple [Handle 7, PyList [Handle 9], Atom (PyInt 1)]
   \<and> getstate (objs witness_heap 0) = 7
   \<and> access (objs witness_heap 0) = Some 4
   \<and> only_id (objs (snd (decode (encode witness_heap
          (PyTuple [Handle 0, PyList [Handle 2], Atom (PyInt 1)])) witness_heap)) 3)
   \<and> encode (snd (decode (encode witness_heap
          (PyTuple [Handle 0, PyList [Handle 2], Atom (PyInt 1)])) witness_heap))
        (PyTuple [Handle 3, PyList [Handle 4], Atom (PyInt 1)])
     = PyTuple [Handle 7, PyList [Handle 9], Atom (PyInt 1)]"
proof -
  let ?v = "PyTuple [Handle 0, PyList [Handle 2], Atom (PyInt 1)]"
  let ?r = "decode (encode witness_heap ?v) witness_heap"
  have enc: "encode witness_heap ?v = PyTuple [Handle 7, PyList [Handle 9], Atom (PyInt 1)]"
    by (simp add: encode_def witness_heap_def getstate_def AccessHandle_init_def)
  have val: "fst ?r = PyTuple [Handle 3, PyList [Handle 4], Atom (PyInt 1)]"
    unfolding enc by (simp add: witness_heap_def)
  have d: "decode (encode witness_heap ?v) witness_heap = (fst ?r, snd ?r)"
    by simp
  note inst = handle_state_is_its_id[OF d, of "objs witness_heap 0"]
  have "3 \<in> set_val (fst ?r)" unfolding val by simp
  with inst have "only_id (objs (snd ?r) 3)" by blast
  moreover have "encode (snd ?r) (fst ?r) = encode witness_heap ?v" using inst by blast
  moreover have "getstate (objs witness_heap 0) = 7" "access (objs witness_heap 0) = Some 4"
    by (simp_all add: witness_heap_def getstate_def AccessHandle_init_def)
  ultimately show ?thesis using val enc by simp
qed

section \<open>Properties of the host-side handle rewriting\<close>










section \<open>Properties of the manager\<close>

subsection \<open>A crashed manager\<close>

lemma send_crashed:
  "is_crashed self \<Longrightarrow>
   send e self h data
     = (Inl (internal_error (''The subprocess '' @ executable self @ '' has crashed.'')), self, h)"
  by (simp add: send_def)

lemma delete_old_infer_states_crashed:
  assumes "is_crashed self"
  shows "\<exists>self'. (delete_old_infer_states e self h = (None, self', h)
                  \<or> delete_old_infer_states e self h
                      = (Some (internal_error (''The subprocess '' @ executable self
                                 @ '' has crashed.'')), self', h))
               \<and> is_crashed self' \<and> process self' = process self
               \<and> executable self' = executable self"
proof (cases "infer_state_deletion_queue self = []")
  case True
  then have "delete_old_infer_states e self h = (None, self, h)"
    by (subst delete_old_infer_states.simps) simp
  with assms show ?thesis by blast
next
  case False
  let ?self1 = "self\<lparr>infer_state_deletion_queue := butlast (infer_state_deletion_queue self)\<rparr>"
  have "is_crashed ?self1" using assms by simp
  then have "send e ?self1 h (Some (last (infer_state_deletion_queue self)), None, [], [])
      = (Inl (internal_error (''The subprocess '' @ executable self @ '' has crashed.'')), ?self1, h)"
    by (simp add: send_crashed)
  with False have "delete_old_infer_states e self h
      = (Some (internal_error (''The subprocess '' @ executable self @ '' has crashed.'')), ?self1, h)"
    by (subst delete_old_infer_states.simps) (simp add: Let_def)
  moreover have "is_crashed ?self1 \<and> process ?self1 = process self
      \<and> executable ?self1 = executable self"
    using assms by simp
  ultimately show ?thesis by blast
qed

lemma run_crashed:
  assumes "is_crashed self"
  shows "\<exists>self'. run e self h i f args kwargs
                  = (Inl (internal_error (''The subprocess '' @ executable self
                             @ '' has crashed.'')), self', h)
               \<and> is_crashed self' \<and> process self' = process self
               \<and> executable self' = executable self"
proof -
  from delete_old_infer_states_crashed[OF assms, of e h] obtain self' where
    d: "delete_old_infer_states e self h = (None, self', h)
        \<or> delete_old_infer_states e self h
            = (Some (internal_error (''The subprocess '' @ executable self
                       @ '' has crashed.'')), self', h)"
    and c: "is_crashed self'" and p: "process self' = process self"
    and x: "executable self' = executable self"
    by blast
  from d show ?thesis
  proof
    assume "delete_old_infer_states e self h = (None, self', h)"
    then have "run e self h i f args kwargs
        = (Inl (internal_error (''The subprocess '' @ executable self @ '' has crashed.'')), self', h)"
      using c x by (simp add: run_def send_crashed)
    with c p x show ?thesis by blast
  next
    assume "delete_old_infer_states e self h
        = (Some (internal_error (''The subprocess '' @ executable self @ '' has crashed.'')), self', h)"
    then have "run e self h i f args kwargs
        = (Inl (internal_error (''The subprocess '' @ executable self @ '' has crashed.'')), self', h)"
      by (simp add: run_def)
    with c p x show ?thesis by blast
  qed
qed

lemma do_call_crashed:
  assumes "is_crashed self" and "do_call e c self h = (r, self', h')"
  shows "is_crashed self' \<and> process self' = process self \<and> executable self' = executable self
         \<and> h' = h \<and> (r = None \<or> r = Some (crashed_error self))"
proof (cases c)
  case (Call_send data)
  with assms show ?thesis by (auto simp: send_crashed crashed_error_def)
next
  case (Call_run i f args kwargs)
  from run_crashed[OF assms(1), of e h i f args kwargs] obtain m where
    "run e self h i f args kwargs = (crashed_error self, m, h)"
    "is_crashed m" "process m = process self" "executable m = executable self"
    unfolding crashed_error_def by blast
  with assms(2) Call_run show ?thesis by auto
next
  case Call_get_sys_path
  with assms show ?thesis by (auto simp: get_sys_path_def send_crashed crashed_error_def)
next
  case (Call_delete_infer_state i)
  with assms show ?thesis by (auto simp: delete_infer_state_def)
qed

lemma do_calls_crashed:
  "is_crashed self \<Longrightarrow> do_calls e cs self h = (rs, self', h') \<Longrightarrow>
     is_crashed self' \<and> process self' = process self \<and> executable self' = executable self
     \<and> h' = h \<and> (\<forall>r \<in> set rs. r = None \<or> r = Some (crashed_error self))"
proof (induction cs arbitrary: self rs)
  case Nil
  then show ?case by simp
next
  case (Cons c cs)
  from Cons.prems(2) obtain r m h1 rs1 where
    c: "do_call e c self h = (r, m, h1)" and cs: "do_calls e cs m h1 = (rs1, self', h')"
    and rs: "rs = r # rs1"
    by (auto split: prod.splits)
  from do_call_crashed[OF Cons.prems(1) c] have
    m: "is_crashed m" "process m = process self" "executable m = executable self" "h1 = h"
    and r: "r = None \<or> r = Some (crashed_error self)"
    by simp_all
  from Cons.IH[OF m(1) cs[unfolded m(4)]] have
    "is_crashed self' \<and> process self' = process m \<and> executable self' = executable m
     \<and> h' = h \<and> (\<forall>r \<in> set rs1. r = None \<or> r = Some (crashed_error m))" .
  moreover have "crashed_error m = crashed_error self"
    using m(3) by (simp add: crashed_error_def)
  ultimately show ?case using m r rs by auto
qed

lemma send_broken_channel:
  assumes "\<not> is_crashed self" and "broken_channel e (fst (get_process self)) (dump_request h data)"
    and "send e self h data = (r, self', h')"
  shows "(\<exists>message. r = Inl (internal_error message)) \<and> is_crashed self'
         \<and> h' = h \<and> executable self' = executable self
         \<and> (\<exists>p. process self' = Some p \<and> \<not> alive p)"
proof -
  obtain p self1 where g: "get_process self = (p, self1)" by (cases "get_process self")
  have x1: "executable self1 = executable self"
    using g by (auto simp: get_process_def split: option.splits)
  obtain w p1 where d: "pickle_dump e (dump_request h data) p = (w, p1)"
    by (cases "pickle_dump e (dump_request h data) p")
  show ?thesis
  proof (cases w)
    case (Some errno)
    with assms(2) g d have "errno = EPIPE \<or> errno = EINVAL"
      by (simp add: broken_channel_def)
    with assms(1,3) g d Some x1 show ?thesis
      by (auto simp: send_def kill_def cleanup_process_def)
  next
    case None
    with assms(2) g d have "fst (pickle_load p1) = None"
      by (simp add: broken_channel_def)
    then obtain p2 where "pickle_load p1 = (None, p2)"
      by (cases "pickle_load p1") auto
    with assms(1,3) g d None x1 show ?thesis
      by (auto simp: send_def kill_def cleanup_process_def)
  qed
qed

text \<open>
  C1. When \<open>_send\<close> on a manager that has not crashed finds the channel broken (the write
  fails with \<open>EPIPE\<close> or \<open>EINVAL\<close>, or the read hits end-of-stream), it raises
  \<open>InternalError\<close> and leaves the manager crashed, its worker killed. From then on,
  whatever calls follow: the manager stays crashed, every call that goes to \<open>_send\<close>
  raises the \<open>InternalError\<close> "has crashed", and the worker process is the same dead
  process with nothing more written to it (it is not started again); a \<open>_send\<close> on the
  crashed manager changes nothing at all.
\<close>

theorem broken_channel_crashes_for_good:
  assumes "\<not> is_crashed self"
    and "broken_channel e (fst (get_process self)) (dump_request h data)"
    and "send e self h data = (r, self', h')"
    and "do_calls e2 cs self' h2 = (rs, self'', h2')"
  shows "(\<exists>message. r = Inl (internal_error message)) \<and> is_crashed self'
         \<and> (\<exists>p. process self' = Some p \<and> \<not> alive p)
         \<and> send e2 self' h2 data2 = (crashed_error self', self', h2)
         \<and> is_crashed self'' \<and> process self'' = process self'
         \<and> (\<forall>r \<in> set rs. r = None \<or> r = Some (crashed_error self'))"
proof -
  note first = send_broken_channel[OF assms(1,2,3)]
  then have c: "is_crashed self'" by simp
  note later = do_calls_crashed[OF c assms(4)]
  have "send e2 self' h2 data2 = (crashed_error self', self', h2)"
    using c by (simp add: send_crashed crashed_error_def)
  with first later show ?thesis by simp
qed

theorem broken_channel_crashes_for_good_witness:
  "\<not> is_crashed dead_worker_manager
   \<and> broken_channel witness_env (fst (get_process dead_worker_manager))
        (dump_request empty_heap (Some 1, Some ''f'', [], []))
   \<and> fst (send witness_env dead_worker_manager empty_heap (Some 1, Some ''f'', [], []))
       = Inl (internal_error ''The subprocess python was killed. Maybe out of memory?'')
   \<and> is_crashed (fst (snd (send witness_env dead_worker_manager empty_heap
                               (Some 1, Some ''f'', [], []))))
   \<and> fst (do_calls witness_env
            [Call_delete_infer_state 1, Call_run 2 ''f'' [] [], Call_get_sys_path]
            (fst (snd (send witness_env dead_worker_manager empty_heap
                         (Some 1, Some ''f'', [], []))))
            empty_heap)
       = [None,
          Some (Inl (internal_error ''The subprocess python has crashed.'')),
          Some (Inl (internal_error ''The subprocess python has crashed.''))]
   \<and> process (fst (snd (do_calls witness_env
            [Call_delete_infer_state 1, Call_run 2 ''f'' [] [], Call_get_sys_path]
            (fst (snd (send witness_env dead_worker_manager empty_heap
                         (Some 1, Some ''f'', [], []))))
            empty_heap)))
       = Some (GeneralizedPopen\<lparr>alive := False\<rparr>)"
proof -
  let ?d = "(Some 1, Some ''f'', [], []) :: request"
  let ?cs = "[Call_delete_infer_state 1, Call_run 2 ''f'' [] [], Call_get_sys_path]"
  let ?s = "send witness_env dead_worker_manager empty_heap ?d"
  let ?m = "fst (snd ?s)"
  let ?r = "do_calls witness_env ?cs ?m empty_heap"
  have a1: "\<not> is_crashed dead_worker_manager"
    by (simp add: dead_worker_manager_def)
  have a2: "broken_channel witness_env (fst (get_process dead_worker_manager))
              (dump_request empty_heap ?d)"
    by (simp add: broken_channel_def get_process_def dead_worker_manager_def pickle_dump_def
          witness_env_def GeneralizedPopen_def)
  have s: "?s = (Inl (internal_error ''The subprocess python was killed. Maybe out of memory?''),
                 \<lparr>is_crashed = True, executable = ''python'', infer_state_deletion_queue = [],
                  process = Some (GeneralizedPopen\<lparr>alive := False\<rparr>)\<rparr>,
                 empty_heap)"
    by (simp add: send_def get_process_def dead_worker_manager_def pickle_dump_def
          witness_env_def GeneralizedPopen_def kill_def cleanup_process_def EPIPE_def EINVAL_def)
  have a3: "?s = (fst ?s, ?m, snd (snd ?s))" by simp
  have a4: "?r = (fst ?r, fst (snd ?r), snd (snd ?r))" by simp
  note inst = broken_channel_crashes_for_good[OF a1 a2 a3 a4, of ?d]
  have m: "?m = \<lparr>is_crashed = True, executable = ''python'', infer_state_deletion_queue = [],
                 process = Some (GeneralizedPopen\<lparr>alive := False\<rparr>)\<rparr>"
    unfolding s by simp
  have p: "process (fst (snd ?r)) = Some (GeneralizedPopen\<lparr>alive := False\<rparr>)"
    using inst m by simp
  have rs: "fst ?r = [None,
          Some (Inl (internal_error ''The subprocess python has crashed.'')),
          Some (Inl (internal_error ''The subprocess python has crashed.''))]"
    unfolding m
    by (simp add: delete_infer_state_def run_def get_sys_path_def send_def
          delete_old_infer_states.simps)
  from a1 a2 inst s rs p show ?thesis by simp
qed

section \<open>Properties of the listener\<close>

subsection \<open>Dispatch of one request\<close>

lemma exchange_args_exchanged:
  "exchange_args reg h args = Inr args' \<Longrightarrow> list_all2 (exchanged reg h) args args'"
proof (induction reg h args arbitrary: args' rule: exchange_args.induct)
  case (1 reg h)
  then show ?case by simp
next
  case (2 reg h a rest)
  from "2.prems" obtain live rest' where
    g: "get_access_handle reg (hid (objs h a)) = Inr live"
    and r: "exchange_args reg h rest = Inr rest'" and a: "args' = Handle live # rest'"
    by (auto split: sum.splits)
  have "list_all2 (exchanged reg h) rest rest'"
    using "2.IH"[OF g r] .
  moreover have "exchanged reg h (Handle a) (Handle live)"
    using g by (simp add: exchanged_def get_access_handle_def split: option.splits)
  ultimately show ?case unfolding a by simp
qed (auto simp: exchanged_def split: sum.splits)

lemma exchange_kwargs_exchanged:
  "exchange_kwargs reg h kwargs = Inr kwargs' \<Longrightarrow>
     list_all2 (\<lambda>item item'. fst item' = fst item \<and> exchanged reg h (snd item) (snd item'))
       kwargs kwargs'"
proof (induction reg h kwargs arbitrary: kwargs' rule: exchange_kwargs.induct)
  case (1 reg h)
  then show ?case by simp
next
  case (2 reg h key a rest)
  from "2.prems" obtain live rest' where
    g: "get_access_handle reg (hid (objs h a)) = Inr live"
    and r: "exchange_kwargs reg h rest = Inr rest'"
    and a: "kwargs' = (key, Handle live) # rest'"
    by (auto split: sum.splits)
  have "list_all2 (\<lambda>item item'. fst item' = fst item \<and> exchanged reg h (snd item) (snd item'))
          rest rest'"
    using "2.IH"[OF g r] .
  moreover have "exchanged reg h (Handle a) (Handle live)"
    using g by (simp add: exchanged_def get_access_handle_def split: option.splits)
  ultimately show ?case unfolding a by simp
qed (auto simp: exchanged_def split: sum.splits)

lemma get_infer_state_stored:
  "get_infer_state self f i = (s, self1) \<Longrightarrow>
     infer_states self1 i = Some s
     \<and> (\<forall>s0. infer_states self i = Some s0 \<longrightarrow> s = s0 \<and> self1 = self)
     \<and> (infer_states self i = None \<longrightarrow> s = created self \<and> created self1 = Suc (created self)
          \<and> infer_states self1 = (infer_states self)(i \<mapsto> s))"
  by (auto simp: get_infer_state_def Let_def split: option.splits)

text \<open>
  C5. The dispatch of one request by \<open>_run\<close>. Without a context id the named function
  is called on the arguments as they are, with no session. With a context id and no
  function the session of that id is taken out of the map, no function is called and
  the memory is untouched. Otherwise the session is got or created and stored under the
  id, each positional and keyword argument that is a handle is replaced by the handle
  registered under its id in that session's registry (the others are passed on
  unchanged, in order), and the function is called with the session first; what it
  returns is what the listener sends back as the result.
\<close>

theorem run_listener_dispatch:
  assumes "get_infer_state self f i = (s, self1)"
    and "reg = compiled_subprocess (infer_state_objs (memory self1) s)"
    and "exchange_args reg (handle_objs (memory self1)) args = Inr args'"
    and "exchange_kwargs reg (handle_objs (memory self1)) kwargs = Inr kwargs'"
    and "infer_states self j = Some t"
    and "load_request data (handle_objs (memory self)) = (payload, h1)"
    and "run_listener e (self\<lparr>memory := (memory self)\<lparr>handle_objs := h1\<rparr>\<rparr>) payload = (Return v, self')"
  shows "run_listener e self (None, Some f, args, kwargs)
           = (case get_function e f None args kwargs (memory self) of
                (out, mem') \<Rightarrow> (out, self\<lparr>memory := mem'\<rparr>))
         \<and> run_listener e self (Some j, None, args, kwargs)
           = (Return (Atom PyNone), self\<lparr>infer_states := (infer_states self)(j := None)\<rparr>)
         \<and> run_listener e self (Some i, Some f, args, kwargs)
           = (case get_function e f (Some s) args' kwargs' (memory self1) of
                (out, mem') \<Rightarrow> (out, self1\<lparr>memory := mem'\<rparr>))
         \<and> infer_states self1 i = Some s
         \<and> list_all2 (exchanged reg (handle_objs (memory self1))) args args'
         \<and> list_all2 (\<lambda>item item'. fst item' = fst item
                         \<and> exchanged reg (handle_objs (memory self1)) (snd item) (snd item'))
              kwargs kwargs'
         \<and> listen_once e self data = (Result (encode (handle_objs (memory self')) v), self')"
proof -
  have free: "run_listener e self (None, Some f, args, kwargs)
           = (case get_function e f None args kwargs (memory self) of
                (out, mem') \<Rightarrow> (out, self\<lparr>memory := mem'\<rparr>))"
    by (simp add: run_listener_def)
  have del: "run_listener e self (Some j, None, args, kwargs)
           = (Return (Atom PyNone), self\<lparr>infer_states := (infer_states self)(j := None)\<rparr>)"
    using assms(5) by (simp add: run_listener_def)
  have call: "run_listener e self (Some i, Some f, args, kwargs)
           = (case get_function e f (Some s) args' kwargs' (memory self1) of
                (out, mem') \<Rightarrow> (out, self1\<lparr>memory := mem'\<rparr>))"
    using assms(1,3,4) unfolding assms(2) by (simp add: run_listener_def Let_def)
  have stored: "infer_states self1 i = Some s"
    using get_infer_state_stored[OF assms(1)] by simp
  have xa: "list_all2 (exchanged reg (handle_objs (memory self1))) args args'"
    using assms(3) by (rule exchange_args_exchanged)
  have xk: "list_all2 (\<lambda>item item'. fst item' = fst item
                         \<and> exchanged reg (handle_objs (memory self1)) (snd item) (snd item'))
              kwargs kwargs'"
    using assms(4) by (rule exchange_kwargs_exchanged)
  have resp: "listen_once e self data = (Result (encode (handle_objs (memory self')) v), self')"
    using assms(6,7) by (simp add: listen_once_def)
  from free del call stored xa xk resp show ?thesis
    by (intro conjI)
qed

theorem run_listener_dispatch_witness:
  "get_infer_state witness_listener ''f'' 4 = (0, witness_listener)
   \<and> exchange_args (compiled_subprocess (infer_state_objs (memory witness_listener) 0))
        (handle_objs (memory witness_listener)) [Handle 1, Atom (PyInt 3)]
       = Inr [Handle 0, Atom (PyInt 3)]
   \<and> exchange_kwargs (compiled_subprocess (infer_state_objs (memory witness_listener) 0))
        (handle_objs (memory witness_listener)) [(''k'', Handle 1)]
       = Inr [(''k'', Handle 0)]
   \<and> exchanged (compiled_subprocess (infer_state_objs (memory witness_listener) 0))
        (handle_objs (memory witness_listener)) (Handle 1) (Handle 0)
   \<and> run_listener witness_env witness_listener
        (Some 4, None, [Handle 1, Atom (PyInt 3)], [(''k'', Handle 1)])
       = (Return (Atom PyNone), witness_listener\<lparr>infer_states := [4 \<mapsto> 0](4 := None)\<rparr>)
   \<and> run_listener witness_env witness_listener
        (Some 4, Some ''f'', [Handle 1, Atom (PyInt 3)], [(''k'', Handle 1)])
       = (Return (Atom PyNone), witness_listener)
   \<and> fst (listen_once witness_env witness_listener (Some 4, Some ''f'', [Handle 7], []))
       = Result (Atom PyNone)"
proof -
  let ?L = witness_listener
  let ?reg = "compiled_subprocess (infer_state_objs (memory ?L) 0)"
  let ?args = "[Handle 1, Atom (PyInt 3)] :: pyval list"
  let ?kwargs = "[(''k'', Handle 1)] :: kwargs"
  let ?data = "(Some 4, Some ''f'', [Handle 7], []) :: wire_request"
  let ?ld = "load_request ?data (handle_objs (memory ?L))"
  let ?L1 = "?L\<lparr>memory := (memory ?L)\<lparr>handle_objs := snd ?ld\<rparr>\<rparr>"
  have a1: "get_infer_state ?L ''f'' 4 = (0, ?L)"
    by (simp add: get_infer_state_def witness_listener_def)
  have a2: "?reg = compiled_subprocess (infer_state_objs (memory ?L) 0)" by simp
  have a3: "exchange_args ?reg (handle_objs (memory ?L)) ?args = Inr [Handle 0, Atom (PyInt 3)]"
    by (simp add: witness_listener_def get_access_handle_def setstate_def blank_AccessHandle_def)
  have a4: "exchange_kwargs ?reg (handle_objs (memory ?L)) ?kwargs = Inr [(''k'', Handle 0)]"
    by (simp add: witness_listener_def get_access_handle_def setstate_def blank_AccessHandle_def)
  have a5: "infer_states ?L 4 = Some 0"
    by (simp add: witness_listener_def)
  have a6: "?ld = (fst ?ld, snd ?ld)" by simp
  have pl: "fst ?ld = (Some 4, Some ''f'', [Handle 2], [])"
    by (simp add: load_request_def witness_listener_def split: prod.splits)
  have ok: "exchange_args (compiled_subprocess (infer_state_objs (memory ?L1) 0))
              (handle_objs (memory ?L1)) [Handle 2] = Inr [Handle 0]"
    by (simp add: load_request_def witness_listener_def get_access_handle_def setstate_def
          blank_AccessHandle_def)
  have gi: "get_infer_state ?L1 ''f'' 4 = (0, ?L1)"
    by (simp add: get_infer_state_def witness_listener_def)
  have fn: "get_function witness_env ''f'' = (\<lambda>session args kwargs mem. (Return (Atom PyNone), mem))"
    by (simp add: witness_env_def)
  have a7: "run_listener witness_env ?L1 (fst ?ld) = (Return (Atom PyNone), ?L1)"
    unfolding pl using ok gi by (simp add: run_listener_def fn)
  note inst = run_listener_dispatch[OF a1 a2 a3 a4 a5 a6 a7]
  have call: "run_listener witness_env ?L (Some 4, Some ''f'', ?args, ?kwargs)
                = (Return (Atom PyNone), ?L)"
    using inst by (simp add: fn)
  have del: "run_listener witness_env ?L (Some 4, None, ?args, ?kwargs)
                = (Return (Atom PyNone), ?L\<lparr>infer_states := [4 \<mapsto> 0](4 := None)\<rparr>)"
    using inst by (simp add: witness_listener_def)
  have x: "exchanged ?reg (handle_objs (memory ?L)) (Handle 1) (Handle 0)"
    using inst by simp
  have resp: "fst (listen_once witness_env ?L ?data) = Result (Atom PyNone)"
    using inst by (simp add: encode_def)
  from a1 a3 a4 x del call resp show ?thesis
    by (intro conjI)
qed

subsection \<open>Sessions of the listener\<close>

text \<open>
  A request with a context id and a function leaves the session map and the count of
  created sessions as \<open>_get_infer_state\<close> left them: neither the exchange of handles
  nor a catalog function reaches them.
\<close>

lemma run_listener_session:
  "run_listener e self (Some i, Some f, args, kwargs) = (out, self') \<Longrightarrow>
     infer_states self' = infer_states (snd (get_infer_state self f i))
     \<and> created self' = created (snd (get_infer_state self f i))"
  by (auto simp: run_listener_def Let_def split: prod.splits sum.splits)

lemma listen_once_session:
  assumes "listen_once e self (Some i, Some f, ws, kws) = (result, self')"
  shows "(\<forall>s. infer_states self i = Some s \<longrightarrow>
            infer_states self' = infer_states self \<and> created self' = created self)
         \<and> (infer_states self i = None \<longrightarrow>
            infer_states self' = (infer_states self)(i \<mapsto> created self)
            \<and> created self' = Suc (created self))"
proof -
  obtain args h1 where a: "decode_list ws (handle_objs (memory self)) = (args, h1)"
    by (cases "decode_list ws (handle_objs (memory self))")
  obtain kwargs h2 where k: "decode_kwargs kws h1 = (kwargs, h2)"
    by (cases "decode_kwargs kws h1")
  let ?self0 = "self\<lparr>memory := (memory self)\<lparr>handle_objs := h2\<rparr>\<rparr>"
  obtain out m where r: "run_listener e ?self0 (Some i, Some f, args, kwargs) = (out, m)"
    by (cases "run_listener e ?self0 (Some i, Some f, args, kwargs)")
  have m: "self' = m"
    using assms a k r by (cases out) (simp_all add: listen_once_def load_request_def)
  note s = run_listener_session[OF r]
  show ?thesis
    unfolding m using s by (auto simp: get_infer_state_def Let_def split: option.splits)
qed

lemma listen_same_id:
  assumes "\<forall>r \<in> set reqs. \<exists>f ws kws. r = (Some i, Some f, ws, kws)"
    and "infer_states self i = Some s"
    and "listen e self reqs None = (status, written, self')"
  shows "infer_states self' = infer_states self \<and> created self' = created self
         \<and> status = Exit 0 \<and> length written = length reqs"
  using assms
proof (induction reqs arbitrary: self written)
  case Nil
  then show ?case by simp
next
  case (Cons r reqs)
  from Cons.prems(1) obtain f ws kws where r: "r = (Some i, Some f, ws, kws)" by auto
  obtain result m where o: "listen_once e self (Some i, Some f, ws, kws) = (result, m)"
    by (cases "listen_once e self (Some i, Some f, ws, kws)")
  from listen_once_session[OF o] Cons.prems(2) have
    m: "infer_states m = infer_states self" "created m = created self"
    by simp_all
  obtain wr where l: "listen e m reqs None = (status, wr, self')" and w: "written = result # wr"
    using Cons.prems(3) o unfolding r by (auto split: prod.splits)
  have "infer_states m i = Some s" using m Cons.prems(2) by simp
  with Cons.IH[OF _ _ l] Cons.prems(1) have
    "infer_states self' = infer_states m \<and> created self' = created m
     \<and> status = Exit 0 \<and> length wr = length reqs"
    by simp
  with m w show ?case by simp
qed

text \<open>
  C4. Any number of requests (one at least) that name the same context id, each with a
  function, sent to a fresh listener: the first one creates a session and stores it under
  the id, and after all of them one session has been created in all, the one stored
  under the id, which a further request for that id gets back without creating another
  (the listener is unchanged by the lookup). A deletion request for the id takes it out
  of the map, and only then does a request for that id create a second session.
\<close>

theorem one_session_per_context_id:
  assumes "\<forall>r \<in> set (first # later). \<exists>f ws kws. r = (Some i, Some f, ws, kws)"
    and "listen e Listener_init (first # later) None = (status, written, self')"
  shows "created (snd (listen_once e Listener_init first)) = 1
         \<and> infer_states (snd (listen_once e Listener_init first)) = [i \<mapsto> 0]
         \<and> created self' = 1
         \<and> infer_states self' = [i \<mapsto> 0]
         \<and> status = Exit 0
         \<and> length written = Suc (length later)
         \<and> get_infer_state self' g i = (0, self')
         \<and> run_listener e self' (Some i, None, args, kwargs)
             = (Return (Atom PyNone), self'\<lparr>infer_states := Map.empty\<rparr>)
         \<and> fst (get_infer_state (self'\<lparr>infer_states := Map.empty\<rparr>) g i) = 1"
proof -
  from assms(1) obtain f ws kws where first: "first = (Some i, Some f, ws, kws)" by auto
  obtain result m where o: "listen_once e Listener_init first = (result, m)"
    by (cases "listen_once e Listener_init first")
  have fresh: "infer_states Listener_init i = None" "created Listener_init = 0"
    "infer_states Listener_init = Map.empty"
    by (simp_all add: Listener_init_def)
  from listen_once_session[OF o[unfolded first]] fresh have
    m: "infer_states m = [i \<mapsto> 0]" "created m = 1"
    by simp_all
  obtain wr where l: "listen e m later None = (status, wr, self')" and w: "written = result # wr"
    using assms(2) o by (auto split: prod.splits)
  have later: "\<forall>r \<in> set later. \<exists>f ws kws. r = (Some i, Some f, ws, kws)"
    using assms(1) by simp
  have mi: "infer_states m i = Some 0" using m by simp
  from listen_same_id[OF later mi l] have
    fin: "infer_states self' = infer_states m" "created self' = created m" "status = Exit 0"
      "length wr = length later"
    by simp_all
  have c1: "created (snd (listen_once e Listener_init first)) = 1"
    using o m by simp
  have c2: "infer_states (snd (listen_once e Listener_init first)) = [i \<mapsto> 0]"
    using o m by simp
  have c3: "created self' = 1" using fin m by simp
  have c4: "infer_states self' = [i \<mapsto> 0]" using fin m by simp
  have c5: "length written = Suc (length later)" using fin w by simp
  have c6: "get_infer_state self' g i = (0, self')"
    using c4 by (simp add: get_infer_state_def)
  have c7: "run_listener e self' (Some i, None, args, kwargs)
             = (Return (Atom PyNone), self'\<lparr>infer_states := Map.empty\<rparr>)"
    using c4 by (simp add: run_listener_def)
  have c8: "fst (get_infer_state (self'\<lparr>infer_states := Map.empty\<rparr>) g i) = 1"
    using c3 by (simp add: get_infer_state_def Let_def)
  from c1 c2 c3 c4 fin(3) c5 c6 c7 c8 show ?thesis
    by (intro conjI)
qed

theorem one_session_per_context_id_witness:
  "fst (listen witness_env Listener_init
        [(Some 4, Some ''f'', [], []), (Some 4, Some ''boom'', [Atom (PyInt 1)], []),
         (Some 4, Some ''g'', [], [(''k'', Atom (PyBool True))])] None) = Exit 0
   \<and> fst (snd (listen witness_env Listener_init
        [(Some 4, Some ''f'', [], []), (Some 4, Some ''boom'', [Atom (PyInt 1)], []),
         (Some 4, Some ''g'', [], [(''k'', Atom (PyBool True))])] None))
       = [Result (Atom PyNone),
          Failure ''Traceback (most recent call last): ...''
            \<lparr>exc_type = OtherError ''ValueError'', exc_args = [PyStr ''boom'']\<rparr>,
          Result (Atom PyNone)]
   \<and> created (snd (snd (listen witness_env Listener_init
        [(Some 4, Some ''f'', [], []), (Some 4, Some ''boom'', [Atom (PyInt 1)], []),
         (Some 4, Some ''g'', [], [(''k'', Atom (PyBool True))])] None))) = 1
   \<and> infer_states (snd (snd (listen witness_env Listener_init
        [(Some 4, Some ''f'', [], []), (Some 4, Some ''boom'', [Atom (PyInt 1)], []),
         (Some 4, Some ''g'', [], [(''k'', Atom (PyBool True))])] None))) 4 = Some 0"
proof -
  let ?first = "(Some 4, Some ''f'', [], []) :: wire_request"
  let ?later = "[(Some 4, Some ''boom'', [Atom (PyInt 1)], []),
                 (Some 4, Some ''g'', [], [(''k'', Atom (PyBool True))])] :: wire_request list"
  let ?r = "listen witness_env Listener_init (?first # ?later) None"
  have a1: "\<forall>r \<in> set (?first # ?later). \<exists>f ws kws. r = (Some 4, Some f, ws, kws)"
    by simp
  have a2: "?r = (fst ?r, fst (snd ?r), snd (snd ?r))" by simp
  note inst = one_session_per_context_id[OF a1 a2]
  have st: "fst ?r = Exit 0" using inst by blast
  have cr: "created (snd (snd ?r)) = 1" using inst by blast
  have "infer_states (snd (snd ?r)) = [4 \<mapsto> 0]" using inst by blast
  then have reg: "infer_states (snd (snd ?r)) 4 = Some 0" by simp
  have wr: "fst (snd ?r)
       = [Result (Atom PyNone),
          Failure ''Traceback (most recent call last): ...''
            \<lparr>exc_type = OtherError ''ValueError'', exc_args = [PyStr ''boom'']\<rparr>,
          Result (Atom PyNone)]"
    by (simp add: listen_once_def load_request_def run_listener_def get_infer_state_def
          Listener_init_def witness_env_def new_InferenceState_def encode_def Let_def)
  from st wr cr reg show ?thesis
    by (intro conjI)
qed

subsection \<open>The loop of the listener\<close>






subsection \<open>Deleting a context that the worker does not hold\<close>

lemma load_request_no_args:
  "load_request (i, f, [], []) h = ((i, f, [], []), h)"
  by (simp add: load_request_def)

lemma run_listener_delete_absent:
  "infer_states self i = None \<Longrightarrow>
     run_listener e self (Some i, None, args, kwargs)
       = (Raise \<lparr>exc_type = KeyError, exc_args = [PyInt i]\<rparr>, self)"
  by (simp add: run_listener_def)

lemma listen_once_delete_absent:
  assumes "infer_states self i = None"
  shows "listen_once e self (Some i, None, [], [])
           = (Failure (format_exc e \<lparr>exc_type = KeyError, exc_args = [PyInt i]\<rparr>)
                \<lparr>exc_type = KeyError, exc_args = [PyInt i]\<rparr>, self)"
  unfolding listen_once_def load_request_no_args
  using assms by (simp add: run_listener_delete_absent)

lemma send_delete_absent:
  assumes "\<not> is_crashed self" and "process self = Some p" and "alive p"
    and "stdout_buf p = []" and "infer_states (listener p) i = None"
  shows "send e self h (Some i, None, [], [])
           = (Inl \<lparr>exc_type = KeyError,
                   exc_args = [PyStr (format_exc e \<lparr>exc_type = KeyError, exc_args = [PyInt i]\<rparr>)]\<rparr>,
              self\<lparr>process := Some (p\<lparr>listener := listener p,
                                       stdin_log := stdin_log p @ [(Some i, None, [], [])],
                                       stdout_buf := []\<rparr>)\<rparr>,
              h)"
  using assms
  by (simp add: send_def get_process_def dump_request_def pickle_dump_def pickle_load_def
        listen_once_delete_absent)

text \<open>
  C10. A deletion request for a context id that the worker's session map does not hold
  raises \<open>KeyError\<close> in \<open>_run\<close> and leaves the listener as it was; the loop answers
  it with the failure response; \<open>_send\<close> on the host raises that \<open>KeyError\<close>, its
  arguments replaced by the traceback text, the manager not crashed and the worker's
  listener unchanged; so does the \<open>run\<close> that finds the id in the deletion queue,
  before the request of its own is written. Deleting the same id twice in a row: the
  first deletion takes the session out, the second raises.
\<close>

theorem delete_absent_context_raises:
  assumes "\<not> is_crashed self" and "process self = Some p" and "alive p"
    and "stdout_buf p = []" and "infer_states (listener p) i = None"
    and "infer_state_deletion_queue self = []"
    and "infer_states worker j = Some s"
  shows "run_listener e (listener p) (Some i, None, args, kwargs)
           = (Raise \<lparr>exc_type = KeyError, exc_args = [PyInt i]\<rparr>, listener p)
         \<and> listen_once e (listener p) (Some i, None, [], [])
           = (Failure (format_exc e \<lparr>exc_type = KeyError, exc_args = [PyInt i]\<rparr>)
                \<lparr>exc_type = KeyError, exc_args = [PyInt i]\<rparr>, listener p)
         \<and> fst (send e self h (Some i, None, [], []))
           = Inl \<lparr>exc_type = KeyError,
                  exc_args = [PyStr (format_exc e \<lparr>exc_type = KeyError, exc_args = [PyInt i]\<rparr>)]\<rparr>
         \<and> \<not> is_crashed (fst (snd (send e self h (Some i, None, [], []))))
         \<and> map_option listener (process (fst (snd (send e self h (Some i, None, [], [])))))
           = Some (listener p)
         \<and> run e (delete_infer_state self i) h k f args kwargs
           = (Inl \<lparr>exc_type = KeyError,
                   exc_args = [PyStr (format_exc e \<lparr>exc_type = KeyError, exc_args = [PyInt i]\<rparr>)]\<rparr>,
              self\<lparr>process := Some (p\<lparr>listener := listener p,
                                       stdin_log := stdin_log p @ [(Some i, None, [], [])],
                                       stdout_buf := []\<rparr>)\<rparr>,
              h)
         \<and> run_listener e worker (Some j, None, args, kwargs)
           = (Return (Atom PyNone), worker\<lparr>infer_states := (infer_states worker)(j := None)\<rparr>)
         \<and> run_listener e (worker\<lparr>infer_states := (infer_states worker)(j := None)\<rparr>)
             (Some j, None, args, kwargs)
           = (Raise \<lparr>exc_type = KeyError, exc_args = [PyInt j]\<rparr>,
              worker\<lparr>infer_states := (infer_states worker)(j := None)\<rparr>)"
proof -
  note c1 = run_listener_delete_absent[OF assms(5), of e args kwargs]
  note c2 = listen_once_delete_absent[OF assms(5), of e]
  note s = send_delete_absent[OF assms(1-5), of e h]
  have c3: "fst (send e self h (Some i, None, [], []))
           = Inl \<lparr>exc_type = KeyError,
                  exc_args = [PyStr (format_exc e \<lparr>exc_type = KeyError, exc_args = [PyInt i]\<rparr>)]\<rparr>"
    unfolding s by simp
  have c4: "\<not> is_crashed (fst (snd (send e self h (Some i, None, [], []))))"
    unfolding s using assms(1) by simp
  have c5: "map_option listener (process (fst (snd (send e self h (Some i, None, [], [])))))
           = Some (listener p)"
    unfolding s by simp
  let ?q = "delete_infer_state self i"
  let ?q1 = "?q\<lparr>infer_state_deletion_queue := butlast (infer_state_deletion_queue ?q)\<rparr>"
  have q1: "?q1 = self"
    using assms(6) by (simp add: delete_infer_state_def)
  have d: "delete_old_infer_states e ?q h
      = (Some \<lparr>exc_type = KeyError,
               exc_args = [PyStr (format_exc e \<lparr>exc_type = KeyError, exc_args = [PyInt i]\<rparr>)]\<rparr>,
         self\<lparr>process := Some (p\<lparr>listener := listener p,
                                  stdin_log := stdin_log p @ [(Some i, None, [], [])],
                                  stdout_buf := []\<rparr>)\<rparr>,
         h)"
  proof -
    have ne: "infer_state_deletion_queue ?q \<noteq> []" "last (infer_state_deletion_queue ?q) = i"
      by (simp_all add: delete_infer_state_def)
    show ?thesis
      by (subst delete_old_infer_states.simps) (simp add: ne Let_def q1 s)
  qed
  have c6: "run e ?q h k f args kwargs
           = (Inl \<lparr>exc_type = KeyError,
                   exc_args = [PyStr (format_exc e \<lparr>exc_type = KeyError, exc_args = [PyInt i]\<rparr>)]\<rparr>,
              self\<lparr>process := Some (p\<lparr>listener := listener p,
                                       stdin_log := stdin_log p @ [(Some i, None, [], [])],
                                       stdout_buf := []\<rparr>)\<rparr>,
              h)"
    unfolding run_def d by simp
  have c7: "run_listener e worker (Some j, None, args, kwargs)
           = (Return (Atom PyNone), worker\<lparr>infer_states := (infer_states worker)(j := None)\<rparr>)"
    using assms(7) by (simp add: run_listener_def)
  have c8: "run_listener e (worker\<lparr>infer_states := (infer_states worker)(j := None)\<rparr>)
             (Some j, None, args, kwargs)
           = (Raise \<lparr>exc_type = KeyError, exc_args = [PyInt j]\<rparr>,
              worker\<lparr>infer_states := (infer_states worker)(j := None)\<rparr>)"
    by (rule run_listener_delete_absent) simp
  from c1 c2 c3 c4 c5 c6 c7 c8 show ?thesis
    by (intro conjI)
qed

theorem delete_absent_context_raises_witness:
  "fst (send witness_env live_worker_manager empty_heap (Some 7, None, [], []))
     = Inl \<lparr>exc_type = KeyError, exc_args = [PyStr ''Traceback (most recent call last): ...'']\<rparr>
   \<and> fst (run witness_env (delete_infer_state live_worker_manager 7) empty_heap 8 ''f'' [] [])
     = Inl \<lparr>exc_type = KeyError, exc_args = [PyStr ''Traceback (most recent call last): ...'']\<rparr>
   \<and> map_option stdin_log (process (fst (snd
        (run witness_env (delete_infer_state live_worker_manager 7) empty_heap 8 ''f'' [] []))))
     = Some [(Some 7, None, [], [])]
   \<and> fst (run_listener witness_env witness_listener (Some 4, None, [], []))
     = Return (Atom PyNone)
   \<and> fst (run_listener witness_env
            (snd (run_listener witness_env witness_listener (Some 4, None, [], [])))
            (Some 4, None, [], []))
     = Raise \<lparr>exc_type = KeyError, exc_args = [PyInt 4]\<rparr>"
proof -
  have a1: "\<not> is_crashed live_worker_manager"
    and a2: "process live_worker_manager = Some GeneralizedPopen"
    and a6: "infer_state_deletion_queue live_worker_manager = []"
    by (simp_all add: live_worker_manager_def)
  have a3: "alive GeneralizedPopen" and a4: "stdout_buf GeneralizedPopen = []"
    and a5: "infer_states (listener GeneralizedPopen) 7 = None"
    by (simp_all add: GeneralizedPopen_def Listener_init_def)
  have a7: "infer_states witness_listener 4 = Some 0"
    by (simp add: witness_listener_def)
  note inst = delete_absent_context_raises[OF a1 a2 a3 a4 a5 a6 a7,
      of witness_env "[]" "[]" empty_heap 8 "''f''"]
  have fe: "format_exc witness_env \<lparr>exc_type = KeyError, exc_args = [PyInt 7]\<rparr>
      = ''Traceback (most recent call last): ...''"
    by (simp add: witness_env_def)
  have c1: "fst (send witness_env live_worker_manager empty_heap (Some 7, None, [], []))
     = Inl \<lparr>exc_type = KeyError, exc_args = [PyStr ''Traceback (most recent call last): ...'']\<rparr>"
    using inst unfolding fe by blast
  have r: "run witness_env (delete_infer_state live_worker_manager 7) empty_heap 8 ''f'' [] []
      = (Inl \<lparr>exc_type = KeyError, exc_args = [PyStr ''Traceback (most recent call last): ...'']\<rparr>,
         live_worker_manager\<lparr>process := Some (GeneralizedPopen\<lparr>listener := listener GeneralizedPopen,
              stdin_log := stdin_log GeneralizedPopen @ [(Some 7, None, [], [])],
              stdout_buf := []\<rparr>)\<rparr>,
         empty_heap)"
    using inst unfolding fe by blast
  have c2: "fst (run witness_env (delete_infer_state live_worker_manager 7) empty_heap 8 ''f'' [] [])
     = Inl \<lparr>exc_type = KeyError, exc_args = [PyStr ''Traceback (most recent call last): ...'']\<rparr>"
    unfolding r by simp
  have c3: "map_option stdin_log (process (fst (snd
        (run witness_env (delete_infer_state live_worker_manager 7) empty_heap 8 ''f'' [] []))))
     = Some [(Some 7, None, [], [])]"
    unfolding r by (simp add: GeneralizedPopen_def)
  have d1: "run_listener witness_env witness_listener (Some 4, None, [], [])
      = (Return (Atom PyNone),
         witness_listener\<lparr>infer_states := (infer_states witness_listener)(4 := None)\<rparr>)"
    using inst by blast
  have c4: "fst (run_listener witness_env witness_listener (Some 4, None, [], []))
     = Return (Atom PyNone)"
    unfolding d1 by simp
  have d2: "run_listener witness_env
             (witness_listener\<lparr>infer_states := (infer_states witness_listener)(4 := None)\<rparr>)
             (Some 4, None, [], [])
      = (Raise \<lparr>exc_type = KeyError, exc_args = [PyInt 4]\<rparr>,
         witness_listener\<lparr>infer_states := (infer_states witness_listener)(4 := None)\<rparr>)"
    using inst by blast
  have c5: "fst (run_listener witness_env
            (snd (run_listener witness_env witness_listener (Some 4, None, [], [])))
            (Some 4, None, [], []))
     = Raise \<lparr>exc_type = KeyError, exc_args = [PyInt 4]\<rparr>"
    unfolding d1 using d2 by simp
  from c1 c2 c3 c4 c5 show ?thesis
    by (intro conjI)
qed

subsection \<open>A call to a running worker\<close>




subsection \<open>Deferred deletion of contexts\<close>





section \<open>Properties of the handle proxy\<close>






end
